theory Spec2Isabelle
  imports Main "HOL-Library.List_Lexorder" "HOL-Library.Char_ord"
begin

section \<open>Asynchronous handlers\<close>

text \<open>
  Every handler of the console is an \<^verbatim>\<open>async\<close> function of a React component: it reads
  the component state of the render it was created in, writes local state through the
  \<^verbatim>\<open>setX\<close> functions, shows notifications, and suspends at every \<^verbatim>\<open>await\<close> of a remote
  store call until the store answers. A handler is modelled as a value of type \<open>proc\<close>,
  whose constructors are these four effects in the order the source performs them:
  \<^item> \<open>Update u p\<close>: a state setter, \<^verbatim>\<open>setX(prev => u(prev))\<close>, then \<open>p\<close>;
  \<^item> \<open>Notify n p\<close>: a toast or an alert, then \<open>p\<close>;
  \<^item> \<open>Await q k\<close>: the remote call \<open>q\<close> is issued and the handler is suspended; when the
    store answers \<open>x\<close> the handler goes on as \<open>k x\<close>;
  \<^item> \<open>Return a\<close>: the handler returns \<open>a\<close>.
  A rejected promise (the \<^verbatim>\<open>catch\<close> branch) is the answer \<open>Failed\<close>.
\<close>

type_synonym timestamp = int

datatype 'd response = Failed | Docs "'d list" | NewId string | Ack

datatype notice = ToastSuccess | ToastInfo | ToastWarning | ToastError | AlertBox

datatype ('s, 'q, 'd, 'a) proc =
    Return 'a
  | Update "'s \<Rightarrow> 's" "('s, 'q, 'd, 'a) proc"
  | Notify notice "('s, 'q, 'd, 'a) proc"
  | Await 'q "'d response \<Rightarrow> ('s, 'q, 'd, 'a) proc"

text \<open>\<open>then_do p f\<close> is \<^verbatim>\<open>const a = await p(); f(a)\<close>.\<close>

primrec then_do ::
  "('s, 'q, 'd, 'a) proc \<Rightarrow> ('a \<Rightarrow> ('s, 'q, 'd, 'b) proc) \<Rightarrow> ('s, 'q, 'd, 'b) proc" where
  "then_do (Return a) f = f a"
| "then_do (Update u p) f = Update u (then_do p f)"
| "then_do (Notify n p) f = Notify n (then_do p f)"
| "then_do (Await q k) f = Await q (\<lambda>x. then_do (k x) f)"

text \<open>
  What an observer sees of a handler: every local state written, every remote call issued,
  every notification shown, in order.
\<close>

datatype ('s, 'q) event = Wrote 's | Called 'q | Showed notice

text \<open>
  \<open>run_sync p s\<close> runs \<open>p\<close> from local state \<open>s\<close> up to its first suspension (or its return):
  the code before an \<^verbatim>\<open>await\<close> runs without interruption on the single UI thread. It gives
  the local state reached, the events, and what is left of the handler.
\<close>

primrec run_sync ::
  "('s, 'q, 'd, 'a) proc \<Rightarrow> 's \<Rightarrow> 's \<times> ('s, 'q) event list \<times> ('s, 'q, 'd, 'a) proc" where
  "run_sync (Return a) s = (s, [], Return a)"
| "run_sync (Update u p) s =
     (case run_sync p (u s) of (s', ev, rest) \<Rightarrow> (s', Wrote (u s) # ev, rest))"
| "run_sync (Notify n p) s =
     (case run_sync p s of (s', ev, rest) \<Rightarrow> (s', Showed n # ev, rest))"
| "run_sync (Await q k) s = (s, [Called q], Await q k)"

text \<open>\<open>result_of p\<close> is the returned value of a finished handler, \<open>None\<close> while it is suspended.\<close>

primrec result_of :: "('s, 'q, 'd, 'a) proc \<Rightarrow> 'a option" where
  "result_of (Return a) = Some a"
| "result_of (Update u p) = None"
| "result_of (Notify n p) = None"
| "result_of (Await q k) = None"

text \<open>
  \<open>exec p xs s\<close> runs one handler alone, the store answering its remote calls with \<open>xs\<close> in
  order. When the answers run out at an \<^verbatim>\<open>await\<close> the handler stays suspended there: the
  state component is then the local state visible while that remote call is in flight,
  and the result is \<open>None\<close>.
\<close>

fun exec ::
  "('s, 'q, 'd, 'a) proc \<Rightarrow> 'd response list \<Rightarrow> 's \<Rightarrow> 's \<times> ('s, 'q) event list \<times> 'a option" where
  "exec p [] s = (case run_sync p s of (s', ev, rest) \<Rightarrow> (s', ev, result_of rest))"
| "exec p (x # xs) s =
     (case run_sync p s of
        (s1, ev1, Await q k) \<Rightarrow>
          (case exec (k x) xs s1 of (s2, ev2, a) \<Rightarrow> (s2, ev1 @ ev2, a))
      | (s1, ev1, rest) \<Rightarrow> (s1, ev1, result_of rest))"

definition state_of :: "'s \<times> ('s, 'q) event list \<times> 'r \<Rightarrow> 's" where
  "state_of r = fst r"

definition events_of :: "'s \<times> ('s, 'q) event list \<times> 'r \<Rightarrow> ('s, 'q) event list" where
  "events_of r = fst (snd r)"

definition returned :: "'s \<times> ('s, 'q) event list \<times> 'r \<Rightarrow> 'r" where
  "returned r = snd (snd r)"

text \<open>The remote calls among the events.\<close>

fun calls :: "('s, 'q) event list \<Rightarrow> 'q list" where
  "calls [] = []"
| "calls (Called q # ev) = q # calls ev"
| "calls (e # ev) = calls ev"

text \<open>
  Several handlers in flight: the pool holds the suspended handlers in the order they were
  issued. \<open>start p\<close> invokes the handler \<open>p\<close>, which runs up to its first \<^verbatim>\<open>await\<close>;
  \<open>resolve i x\<close> is the store answering the remote call of the \<open>i\<close>-th suspended handler
  with \<open>x\<close>, which runs that handler up to its next \<^verbatim>\<open>await\<close>. The components keep no
  table of pending mutations: the pool is the pending promises of the JavaScript run time.
\<close>

type_synonym ('s, 'q, 'd) sys = "'s \<times> ('s, 'q) event list \<times> ('s, 'q, 'd, unit) proc list"

definition suspended :: "('s, 'q, 'd, 'a) proc \<Rightarrow> ('s, 'q, 'd, 'a) proc list" where
  "suspended p = (case p of Await q k \<Rightarrow> [p] | _ \<Rightarrow> [])"

definition start :: "('s, 'q, 'd, unit) proc \<Rightarrow> ('s, 'q, 'd) sys \<Rightarrow> ('s, 'q, 'd) sys" where
  "start p sys =
     (case sys of (s, tr, pool) \<Rightarrow>
        (case run_sync p s of (s', ev, rest) \<Rightarrow> (s', tr @ ev, pool @ suspended rest)))"

definition resolve :: "nat \<Rightarrow> 'd response \<Rightarrow> ('s, 'q, 'd) sys \<Rightarrow> ('s, 'q, 'd) sys" where
  "resolve i x sys =
     (case sys of (s, tr, pool) \<Rightarrow>
        (if i < length pool then
           (case pool ! i of
              Await q k \<Rightarrow>
                (case run_sync (k x) s of
                   (s', ev, rest) \<Rightarrow> (s', tr @ ev, take i pool @ drop (Suc i) pool @ suspended rest))
            | _ \<Rightarrow> sys)
         else sys))"

section \<open>Products screen: data\<close>

text \<open>
  The texts that the product form trims are JavaScript strings: sequences of UTF-16 code
  units, each a number below 65536. \<open>js\<close> writes such a text from ASCII characters.
  Identifiers, dates and times are only compared, and stay byte strings.
\<close>

type_synonym jstring = "nat list"

definition js :: "string \<Rightarrow> jstring" where
  "js s = map of_char s"

text \<open>
  \<^verbatim>\<open>Product\<close> of \<^verbatim>\<open>ProductsManagement.tsx\<close>; \<open>pid\<close> is its \<^verbatim>\<open>id\<close>. \<^verbatim>\<open>createdAt\<close> is an
  instant (Timestamp, Date or number in the source), here milliseconds as an integer.
  Prices are JavaScript numbers that the screen only stores and shows; they are integers
  here.
\<close>

record product =
  pid :: string
  name :: jstring
  category :: jstring
  price :: int
  description :: jstring
  img :: jstring
  createdAt :: timestamp
  featured :: bool

text \<open>The object literal \<^verbatim>\<open>productData\<close> of \<^verbatim>\<open>handleSave\<close>: a product without its id.\<close>

record productData =
  pd_name :: jstring
  pd_category :: jstring
  pd_price :: int
  pd_description :: jstring
  pd_img :: jstring
  pd_createdAt :: timestamp
  pd_featured :: bool

text \<open>\<^verbatim>\<open>Category\<close>; \<open>cat_id\<close> is its \<^verbatim>\<open>id\<close>.\<close>

record category =
  cat_id :: string
  cat_name :: jstring

text \<open>
  A document as the store returns it (\<^verbatim>\<open>QueryDocumentSnapshot\<close>): its id and its data,
  every field of which may be missing. A document of the \<^verbatim>\<open>categories\<close> collection has
  the field \<^verbatim>\<open>name\<close> only.
\<close>

record doc =
  doc_id :: string
  f_name :: "jstring option"
  f_category :: "jstring option"
  f_price :: "int option"
  f_description :: "jstring option"
  f_img :: "jstring option"
  f_createdAt :: "timestamp option"
  f_featured :: "bool option"

text \<open>
  \<^verbatim>\<open>FormState\<close>. The price text is kept as JavaScript reads it: \<open>None\<close> when
  \<^verbatim>\<open>form.price === "" || Number.isNaN(Number(form.price))\<close>, otherwise \<open>Some\<close> of
  \<^verbatim>\<open>Number(form.price)\<close>.
\<close>

record formState =
  form_name :: jstring
  form_category :: jstring
  form_price :: "int option"
  form_description :: jstring
  form_img :: jstring

text \<open>The remote calls of the products screen.\<close>

datatype product_request =
    QueryPage "doc option" nat
      \<comment> \<open>\<^verbatim>\<open>getDocs(query(collection(db,"products"), orderBy("createdAt","desc"),
            [startAfter(lastDoc),] limit(n)))\<close>\<close>
  | QueryCategories
      \<comment> \<open>\<^verbatim>\<open>getDocs(collection(db,"categories"))\<close>\<close>
  | AddProduct productData
      \<comment> \<open>\<^verbatim>\<open>addDoc(collection(db,"products"), fields)\<close>\<close>
  | UpdateProduct string productData
      \<comment> \<open>\<^verbatim>\<open>updateDoc(doc(db,"products",id), fields)\<close>\<close>
  | UpdateFeatured string bool
      \<comment> \<open>\<^verbatim>\<open>updateDoc(doc(db,"products",id), { featured })\<close>\<close>
  | DeleteProduct string
      \<comment> \<open>\<^verbatim>\<open>deleteDoc(doc(db,"products",id))\<close>\<close>

text \<open>The component state that the handlers below read or write.\<close>

record pstate =
  products :: "product list"
  categories :: "category list"
  lastDoc :: "doc option"
  loadingMore :: bool
  showModal :: bool
  editing :: "product option"
  confirmOpen :: bool
  toDeleteId :: "string option"
  form :: formState
  errors :: "string list"

type_synonym 'a product_proc = "(pstate, product_request, doc, 'a) proc"

definition PAGE_SIZE :: nat where
  "PAGE_SIZE = 5"

definition MAX_FEATURED :: nat where
  "MAX_FEATURED = 6"

definition normalizeDoc :: "timestamp \<Rightarrow> doc \<Rightarrow> product" where
  "normalizeDoc now d =
     \<lparr> pid = doc_id d,
       name = (case f_name d of None \<Rightarrow> [] | Some v \<Rightarrow> v),
       category = (case f_category d of None \<Rightarrow> [] | Some v \<Rightarrow> v),
       price = (case f_price d of None \<Rightarrow> 0 | Some v \<Rightarrow> v),
       description = (case f_description d of None \<Rightarrow> [] | Some v \<Rightarrow> v),
       img = (case f_img d of None \<Rightarrow> [] | Some v \<Rightarrow> v),
       createdAt = (case f_createdAt d of None \<Rightarrow> now | Some t \<Rightarrow> t),
       featured = (case f_featured d of None \<Rightarrow> False | Some b \<Rightarrow> b) \<rparr>"

definition normalizeCategoryDoc :: "doc \<Rightarrow> category" where
  "normalizeCategoryDoc d =
     \<lparr> cat_id = doc_id d, cat_name = (case f_name d of None \<Rightarrow> [] | Some v \<Rightarrow> v) \<rparr>"

section \<open>Products screen: loading\<close>

definition fetchProducts :: "timestamp \<Rightarrow> unit product_proc" where
  "fetchProducts now =
     Await (QueryPage None PAGE_SIZE) (\<lambda>r.
       case r of
         Docs ds \<Rightarrow>
           Update (\<lambda>st. st\<lparr>products := map (normalizeDoc now) ds\<rparr>)
          (Update (\<lambda>st. st\<lparr>lastDoc := (if ds \<noteq> [] then Some (last ds) else None)\<rparr>)
          (Return ()))
       | _ \<Rightarrow> Notify ToastError (Return ()))"

definition fetchCategories :: "unit product_proc" where
  "fetchCategories =
     Await QueryCategories (\<lambda>r.
       case r of
         Docs ds \<Rightarrow>
           Update (\<lambda>st. st\<lparr>categories := map normalizeCategoryDoc ds\<rparr>) (Return ())
       | _ \<Rightarrow> Notify ToastError (Return ()))"

text \<open>
  \<^verbatim>\<open>loadMore\<close> reads \<^verbatim>\<open>lastDoc\<close> from the render it was created in, the state \<open>s\<close>.
\<close>

definition loadMore :: "timestamp \<Rightarrow> pstate \<Rightarrow> unit product_proc" where
  "loadMore now s =
     (case lastDoc s of
        None \<Rightarrow> Return ()
      | Some d \<Rightarrow>
          Update (\<lambda>st. st\<lparr>loadingMore := True\<rparr>)
         (Await (QueryPage (Some d) PAGE_SIZE) (\<lambda>r.
            case r of
              Docs ds \<Rightarrow>
                (if ds \<noteq> [] then
                   Update (\<lambda>st. st\<lparr>products := products st @ map (normalizeDoc now) ds\<rparr>)
                  (Update (\<lambda>st. st\<lparr>lastDoc := (if ds \<noteq> [] then Some (last ds) else None)\<rparr>)
                  (Update (\<lambda>st. st\<lparr>loadingMore := False\<rparr>) (Return ())))
                 else
                   Update (\<lambda>st. st\<lparr>lastDoc := None\<rparr>)
                  (Update (\<lambda>st. st\<lparr>loadingMore := False\<rparr>) (Return ())))
            | _ \<Rightarrow>
                Notify ToastError
               (Update (\<lambda>st. st\<lparr>loadingMore := False\<rparr>) (Return ())))))"

section \<open>Products screen: mutations\<close>

text \<open>
  \<^verbatim>\<open>String.prototype.trim\<close> removes from both ends the code units that ECMAScript counts
  as white space or line terminators: U+0009 to U+000D, U+0020, U+00A0, U+1680, U+2000 to
  U+200A, U+2028, U+2029, U+202F, U+205F, U+3000 and U+FEFF.
\<close>

definition is_space :: "nat \<Rightarrow> bool" where
  "is_space u =
     (u \<in> set [0x0009, 0x000A, 0x000B, 0x000C, 0x000D, 0x0020, 0x00A0, 0x1680,
               0x2000, 0x2001, 0x2002, 0x2003, 0x2004, 0x2005, 0x2006, 0x2007, 0x2008,
               0x2009, 0x200A, 0x2028, 0x2029, 0x202F, 0x205F, 0x3000, 0xFEFF])"

definition trim :: "jstring \<Rightarrow> jstring" where
  "trim s = rev (dropWhile is_space (rev (dropWhile is_space s)))"

text \<open>The keys of the error object \<^verbatim>\<open>e\<close> that \<^verbatim>\<open>validate\<close> builds.\<close>

definition validate :: "formState \<Rightarrow> string list" where
  "validate f =
     (if trim (form_name f) = [] then [''name''] else []) @
     (if trim (form_category f) = [] then [''category''] else []) @
     (case form_price f of
        None \<Rightarrow> [''price'']
      | Some v \<Rightarrow> if v < 0 then [''price''] else [])"

text \<open>
  \<^verbatim>\<open>productData\<close>, with \<open>now\<close> for \<^verbatim>\<open>new Date()\<close>. It is built only after \<^verbatim>\<open>validate\<close>
  has passed, so the price is a number.
\<close>

definition productData_of :: "timestamp \<Rightarrow> formState \<Rightarrow> productData" where
  "productData_of now f =
     \<lparr> pd_name = trim (form_name f),
       pd_category = trim (form_category f),
       pd_price = (case form_price f of None \<Rightarrow> 0 | Some v \<Rightarrow> v),
       pd_description = trim (form_description f),
       pd_img = trim (form_img f),
       pd_createdAt = now,
       pd_featured = False \<rparr>"

text \<open>\<^verbatim>\<open>{ id: i, ...productData }\<close>.\<close>

definition with_id :: "string \<Rightarrow> productData \<Rightarrow> product" where
  "with_id i pd =
     \<lparr> pid = i,
       name = pd_name pd,
       category = pd_category pd,
       price = pd_price pd,
       description = pd_description pd,
       img = pd_img pd,
       createdAt = pd_createdAt pd,
       featured = pd_featured pd \<rparr>"

text \<open>
  \<^verbatim>\<open>{ ...p, ...productData }\<close>: \<open>productData\<close> has every field of a product but the id, so
  each field of \<open>p\<close> other than its id is overwritten.
\<close>

definition spread :: "product \<Rightarrow> productData \<Rightarrow> product" where
  "spread p pd = with_id (pid p) pd"

definition handleSave :: "timestamp \<Rightarrow> pstate \<Rightarrow> unit product_proc" where
  "handleSave now s =
     Update (\<lambda>st. st\<lparr>errors := validate (form s)\<rparr>)
     (if validate (form s) \<noteq> [] then Return ()
      else
        (case editing s of
           Some ed \<Rightarrow>
             Update (\<lambda>st. st\<lparr>products :=
                       map (\<lambda>p. if pid p = pid ed then spread p (productData_of now (form s)) else p)
                           (products st)\<rparr>)
            (Await (UpdateProduct (pid ed) (productData_of now (form s))) (\<lambda>r.
               case r of
                 Failed \<Rightarrow> Notify ToastError (fetchProducts now)
               | _ \<Rightarrow>
                   Notify ToastSuccess
                  (Update (\<lambda>st. st\<lparr>showModal := False\<rparr>) (Return ()))))
         | None \<Rightarrow>
             Await (AddProduct (productData_of now (form s))) (\<lambda>r.
               case r of
                 NewId i \<Rightarrow>
                   Update (\<lambda>st. st\<lparr>products :=
                             with_id i (productData_of now (form s)) # products st\<rparr>)
                  (Notify ToastSuccess
                  (Update (\<lambda>st. st\<lparr>showModal := False\<rparr>) (Return ())))
               | _ \<Rightarrow> Notify ToastError (fetchProducts now))))"

definition handleDelete :: "pstate \<Rightarrow> unit product_proc" where
  "handleDelete s =
     (case toDeleteId s of
        None \<Rightarrow> Return ()
      | Some i \<Rightarrow>
          if i = [] then Return ()
          else
            Update (\<lambda>st. st\<lparr>products := filter (\<lambda>p. pid p \<noteq> i) (products st)\<rparr>)
           (Await (DeleteProduct i) (\<lambda>r.
              case r of
                Failed \<Rightarrow>
                  Notify ToastError
                 (Update (\<lambda>st. st\<lparr>products := products s\<rparr>)
                 (Update (\<lambda>st. st\<lparr>toDeleteId := None\<rparr>)
                 (Update (\<lambda>st. st\<lparr>confirmOpen := False\<rparr>) (Return ()))))
              | _ \<Rightarrow>
                  Notify ToastInfo
                 (Update (\<lambda>st. st\<lparr>toDeleteId := None\<rparr>)
                 (Update (\<lambda>st. st\<lparr>confirmOpen := False\<rparr>) (Return ()))))))"

text \<open>
  \<^verbatim>\<open>toggleFeatured(product)\<close>: the count is taken over \<^verbatim>\<open>products\<close> of the render the
  handler was created in, the state \<open>s\<close>.
\<close>

definition toggleFeatured :: "pstate \<Rightarrow> product \<Rightarrow> unit product_proc" where
  "toggleFeatured s product =
     (if \<not> featured product \<and> length (filter featured (products s)) \<ge> MAX_FEATURED then
        Notify ToastWarning (Return ())
      else
        Update (\<lambda>st. st\<lparr>products :=
                  map (\<lambda>p. if pid p = pid product
                            then product\<lparr>featured := \<not> featured product\<rparr> else p)
                      (products st)\<rparr>)
       (Await (UpdateFeatured (pid product) (\<not> featured product)) (\<lambda>r.
          case r of
            Failed \<Rightarrow> Notify ToastError (Return ())
          | _ \<Rightarrow> Notify ToastSuccess (Return ()))))"

text \<open>
  The local list after \<^verbatim>\<open>setProducts(prev => prev.map(p => p.id === product.id ? updated : p))\<close>
  of \<^verbatim>\<open>toggleFeatured(product)\<close>.
\<close>

definition toggled :: "product \<Rightarrow> pstate \<Rightarrow> pstate" where
  "toggled p s =
     s\<lparr>products :=
         map (\<lambda>q. if pid q = pid p then p\<lparr>featured := \<not> featured p\<rparr> else q) (products s)\<rparr>"

section \<open>Products screen: the component\<close>

text \<open>
  The state of the freshly mounted component (the arguments of its \<^verbatim>\<open>useState\<close> calls).
\<close>

definition initial :: pstate where
  "initial =
     \<lparr> products = [], categories = [], lastDoc = None, loadingMore = False,
       showModal = False, editing = None, confirmOpen = False, toDeleteId = None,
       form = \<lparr> form_name = [], form_category = [], form_price = None,
                form_description = [], form_img = [] \<rparr>,
       errors = [] \<rparr>"

text \<open>
  The component has the effect
  \<^verbatim>\<open>useEffect(() => { fetchProducts(); fetchCategories(); }, )\<close>, with no dependency list:
  it runs after every render, that is after the mount and after every step of a handler
  that called a state setter. The setter calls of one step are taken as one render; a
  render per setter call would issue more of the same two queries and change nothing else.
\<close>

type_synonym psys = "(pstate, product_request, doc) sys"

fun wrote :: "('s, 'q) event list \<Rightarrow> bool" where
  "wrote [] = False"
| "wrote (Wrote s # ev) = True"
| "wrote (e # ev) = wrote ev"

definition effect :: "timestamp \<Rightarrow> psys \<Rightarrow> psys" where
  "effect now sys = start fetchCategories (start (fetchProducts now) sys)"

text \<open>\<open>settle now before after\<close>: the render and the effect after a step that wrote state.\<close>

definition settle :: "timestamp \<Rightarrow> psys \<Rightarrow> psys \<Rightarrow> psys" where
  "settle now before after =
     (if wrote (drop (length (events_of before)) (events_of after)) then effect now after
      else after)"

definition mount :: "timestamp \<Rightarrow> psys" where
  "mount now = effect now (initial, [], [])"

text \<open>
  \<open>press now h\<close>: a UI event invokes the handler \<open>h\<close> of the current render.
  \<open>answer now i x\<close>: the store answers the \<open>i\<close>-th pending call with \<open>x\<close>.
\<close>

definition press :: "timestamp \<Rightarrow> (pstate \<Rightarrow> unit product_proc) \<Rightarrow> psys \<Rightarrow> psys" where
  "press now h sys = settle now sys (start (h (state_of sys)) sys)"

definition answer :: "timestamp \<Rightarrow> nat \<Rightarrow> doc response \<Rightarrow> psys \<Rightarrow> psys" where
  "answer now i x sys = settle now sys (resolve i x sys)"

text \<open>
  Two clicks on the featured switch of one product, the second before the store has
  answered anything: the second handler belongs to the render that shows the first
  change, and is given the product as shown there.
\<close>

definition two_toggles :: "timestamp \<Rightarrow> product \<Rightarrow> psys \<Rightarrow> psys" where
  "two_toggles now p sys =
     press now (\<lambda>s. toggleFeatured s (p\<lparr>featured := \<not> featured p\<rparr>))
       (press now (\<lambda>s. toggleFeatured s p) sys)"

section \<open>Reviews screen\<close>

text \<open>\<^verbatim>\<open>Review\<close> of \<^verbatim>\<open>ReviewsManagement.tsx\<close>.\<close>

record review =
  r_id :: string
  r_name :: string
  r_comment :: string
  r_rating :: int
  r_type :: "string option"
  r_username :: "string option"
  r_productName :: "string option"
  r_cafeName :: "string option"
  r_createdAt :: timestamp
  r_featured :: bool

datatype review_request =
    UpdateReviewFeatured string bool
      \<comment> \<open>\<^verbatim>\<open>updateDoc(doc(db,"reviews",id), { featured })\<close>\<close>

record rvstate =
  reviews :: "review list"

type_synonym 'a review_proc = "(rvstate, review_request, unit, 'a) proc"

text \<open>
  \<^verbatim>\<open>toggleFeatured(review)\<close> of the reviews screen. Its doc comment reads
  \<^verbatim>\<open>Toggle featured status with a max of 3\<close> and its alert says that only three may be
  chosen; the comparison in the code is with the literal 6, which the model keeps.
\<close>

definition toggleFeatured_review :: "rvstate \<Rightarrow> review \<Rightarrow> unit review_proc" where
  "toggleFeatured_review s review =
     (if \<not> r_featured review \<and> length (filter r_featured (reviews s)) \<ge> 6 then
        Notify AlertBox (Return ())
      else
        Await (UpdateReviewFeatured (r_id review) (\<not> r_featured review)) (\<lambda>x.
          case x of
            Failed \<Rightarrow> Return ()
          | _ \<Rightarrow>
              Update (\<lambda>st. st\<lparr>reviews :=
                        map (\<lambda>r. if r_id r = r_id review
                                  then r\<lparr>r_featured := \<not> r_featured review\<rparr> else r)
                            (reviews st)\<rparr>)
             (Return ())))"

section \<open>Reservation page\<close>

text \<open>\<^verbatim>\<open>ReservationData\<close> of \<^verbatim>\<open>Reservation.tsx\<close>.\<close>

record reservationData =
  res_name :: string
  res_phone :: string
  res_date :: string
  res_time :: string
  res_guests :: int

text \<open>
  The texts of \<^verbatim>\<open>errorMsg\<close>: the empty string, the text shown when
  \<^verbatim>\<open>checkAvailability\<close> gave \<^verbatim>\<open>false\<close> (the slot is already booked), and the text shown when
  the create was rejected.
\<close>

datatype message = NoMessage | SlotTaken | SubmitFailed

record resv_state =
  formData :: reservationData
  loading :: bool
  submitted :: bool
  errorMsg :: message

datatype reservation_request =
    QuerySlot string string
      \<comment> \<open>\<^verbatim>\<open>getDocs(query(collection(db,"reservations"), where("date","==",date),
            where("time","==",time)))\<close>\<close>
  | AddReservation reservationData timestamp
      \<comment> \<open>\<^verbatim>\<open>addDoc(collection(db,"reservations"), { ...formData, createdAt })\<close>\<close>

record reservation_doc =
  rd_id :: string
  rd_data :: reservationData
  rd_createdAt :: timestamp

type_synonym 'a resv_proc = "(resv_state, reservation_request, reservation_doc, 'a) proc"

definition checkAvailability :: "resv_state \<Rightarrow> bool resv_proc" where
  "checkAvailability s =
     (if res_date (formData s) = [] \<or> res_time (formData s) = [] then Return True
      else
        Await (QuerySlot (res_date (formData s)) (res_time (formData s))) (\<lambda>x.
          case x of
            Docs ds \<Rightarrow> Return (ds = [])
          | _ \<Rightarrow> Return False))"

definition handleSubmit :: "timestamp \<Rightarrow> resv_state \<Rightarrow> unit resv_proc" where
  "handleSubmit now s =
     Update (\<lambda>st. st\<lparr>loading := True\<rparr>)
    (Update (\<lambda>st. st\<lparr>errorMsg := NoMessage\<rparr>)
    (Update (\<lambda>st. st\<lparr>submitted := False\<rparr>)
    (then_do (checkAvailability s) (\<lambda>isAvailable.
       if \<not> isAvailable then
         Update (\<lambda>st. st\<lparr>errorMsg := SlotTaken\<rparr>)
        (Update (\<lambda>st. st\<lparr>loading := False\<rparr>) (Return ()))
       else
         Await (AddReservation (formData s) now) (\<lambda>x.
           case x of
             Failed \<Rightarrow>
               Update (\<lambda>st. st\<lparr>errorMsg := SubmitFailed\<rparr>)
              (Update (\<lambda>st. st\<lparr>loading := False\<rparr>) (Return ()))
           | _ \<Rightarrow>
               Update (\<lambda>st. st\<lparr>submitted := True\<rparr>)
              (Update (\<lambda>st. st\<lparr>formData :=
                         \<lparr> res_name = [], res_phone = [], res_date = [], res_time = [],
                           res_guests = 1 \<rparr>\<rparr>)
              (Update (\<lambda>st. st\<lparr>loading := False\<rparr>) (Return ()))))))))"

section \<open>The remote store, as the paginator sees it\<close>

text \<open>
  Modelled from the spec: the external RemoteStore's
  \<^verbatim>\<open>queryPage(collection, orderByField desc, pageSize, afterCursor?)\<close>, which is not code of
  the repository. The collection is given as the list \<open>ordered\<close> of its documents in the
  order in which the store lists them for \<^verbatim>\<open>orderBy("createdAt","desc")\<close>; a page is the
  next \<open>n\<close> documents strictly after the cursor document. The collection does not change.
\<close>

definition queryPage :: "doc list \<Rightarrow> doc option \<Rightarrow> nat \<Rightarrow> doc list" where
  "queryPage ordered cursor n =
     take n (case cursor of
               None \<Rightarrow> ordered
             | Some d \<Rightarrow> tl (dropWhile (\<lambda>x. doc_id x \<noteq> doc_id d) ordered))"

text \<open>\<open>answer_page now ordered i\<close>: the store answers the \<open>i\<close>-th pending call, a page query.\<close>

definition answer_page :: "timestamp \<Rightarrow> doc list \<Rightarrow> nat \<Rightarrow> psys \<Rightarrow> psys" where
  "answer_page now ordered i sys =
     (if i < length (returned sys) then
        (case returned sys ! i of
           Await (QueryPage cursor n) k \<Rightarrow>
             answer now i (Docs (queryPage ordered cursor n)) sys
         | _ \<Rightarrow> sys)
      else sys)"

text \<open>
  \<open>load_more now ordered\<close>: the load-more button is pressed and the store answers the query
  of that press. The press, when it issues a query, puts it in the pool right after the
  calls already pending; the queries that the effect issues after the press come behind
  it and stay pending.
\<close>

definition load_more :: "timestamp \<Rightarrow> doc list \<Rightarrow> psys \<Rightarrow> psys" where
  "load_more now ordered sys =
     answer_page now ordered (length (returned sys)) (press now (loadMore now) sys)"

text \<open>
  \<open>paged now ordered n\<close>: the component is mounted, the store answers the first-page query
  of the mount, and the load-more button is then pressed \<open>n\<close> times, the store answering
  the query of each press before the next. Every other query, namely the first-page and
  category queries that the effect issues again after each render, is still pending.
\<close>

fun paged :: "timestamp \<Rightarrow> doc list \<Rightarrow> nat \<Rightarrow> psys" where
  "paged now ordered 0 = answer_page now ordered 0 (mount now)"
| "paged now ordered (Suc n) = load_more now ordered (paged now ordered n)"

text \<open>
  The user presses the load-more button for as long as it is shown; the button is
  rendered exactly while \<^verbatim>\<open>lastDoc\<close> is set. The loop need not end, so its result is an
  option.
\<close>

partial_function (option) load_all :: "timestamp \<Rightarrow> doc list \<Rightarrow> psys \<Rightarrow> psys option" where
  "load_all now ordered sys =
     (case lastDoc (state_of sys) of
        None \<Rightarrow> Some sys
      | Some d \<Rightarrow> load_all now ordered (load_more now ordered sys))"

text \<open>
  What \<^verbatim>\<open>orderBy("createdAt","desc")\<close> promises of the store's listing: every listed
  document has the field, and the field does not increase along the list.
\<close>

definition newest_first :: "doc list \<Rightarrow> bool" where
  "newest_first ds =
     sorted_wrt (\<lambda>a b. case (f_createdAt a, f_createdAt b) of
                          (Some ta, Some tb) \<Rightarrow> tb \<le> ta
                        | _ \<Rightarrow> False) ds"

text \<open>
  The order the specification asks of the accumulated list: descending \<^verbatim>\<open>createdAt\<close>, and
  ascending id among products of equal \<^verbatim>\<open>createdAt\<close> (strings in lexicographic order).
\<close>

definition spec_order :: "product \<Rightarrow> product \<Rightarrow> bool" where
  "spec_order a b =
     (if createdAt a = createdAt b then pid a < pid b else createdAt b < createdAt a)"

section \<open>Sample data\<close>

definition mk_doc :: "string \<Rightarrow> timestamp \<Rightarrow> doc" where
  "mk_doc i t =
     \<lparr> doc_id = i, f_name = None, f_category = None, f_price = None, f_description = None,
       f_img = None, f_createdAt = Some t, f_featured = None \<rparr>"

definition mk_product :: "string \<Rightarrow> timestamp \<Rightarrow> bool \<Rightarrow> product" where
  "mk_product i t b =
     \<lparr> pid = i, name = js ''tea'', category = js ''drinks'', price = 30, description = [],
       img = [],
       createdAt = t, featured = b \<rparr>"

definition empty_form :: formState where
  "empty_form =
     \<lparr> form_name = [], form_category = [], form_price = None, form_description = [],
       form_img = [] \<rparr>"

definition screen :: "product list \<Rightarrow> pstate" where
  "screen ps =
     \<lparr> products = ps, categories = [], lastDoc = None, loadingMore = False,
       showModal = False, editing = None, confirmOpen = False, toDeleteId = None,
       form = empty_form, errors = [] \<rparr>"

definition mk_review :: "string \<Rightarrow> bool \<Rightarrow> review" where
  "mk_review i b =
     \<lparr> r_id = i, r_name = ''guest'', r_comment = ''good'', r_rating = 5, r_type = None,
       r_username = None, r_productName = None, r_cafeName = None, r_createdAt = 0,
       r_featured = b \<rparr>"

definition booking :: "string \<Rightarrow> string \<Rightarrow> resv_state" where
  "booking d t =
     \<lparr> formData = \<lparr> res_name = ''Mona'', res_phone = ''0100'', res_date = d, res_time = t,
                    res_guests = 2 \<rparr>,
       loading = False, submitted = False, errorMsg = NoMessage \<rparr>"

text \<open>Twelve products in the store, newest first.\<close>

definition twelve :: "doc list" where
  "twelve =
     [mk_doc ''p12'' 12, mk_doc ''p11'' 11, mk_doc ''p10'' 10, mk_doc ''p09'' 9,
      mk_doc ''p08'' 8, mk_doc ''p07'' 7, mk_doc ''p06'' 6, mk_doc ''p05'' 5,
      mk_doc ''p04'' 4, mk_doc ''p03'' 3, mk_doc ''p02'' 2, mk_doc ''p01'' 1]"

text \<open>Six featured products and a seventh that is not; three featured reviews and a fourth.\<close>

definition six_featured :: "product list" where
  "six_featured =
     [mk_product ''a'' 7 True, mk_product ''b'' 6 True, mk_product ''c'' 5 True,
      mk_product ''d'' 4 True, mk_product ''e'' 3 True, mk_product ''f'' 2 True,
      mk_product ''g'' 1 False]"

definition three_featured :: rvstate where
  "three_featured =
     \<lparr> reviews = [mk_review ''r1'' True, mk_review ''r2'' True, mk_review ''r3'' True,
                  mk_review ''r4'' False] \<rparr>"

text \<open>A filled-in product form, and the screen with the edit dialog open on it.\<close>

definition tea_form :: formState where
  "tea_form =
     \<lparr> form_name = js ''mint tea '', form_category = js ''drinks'', form_price = Some 35,
       form_description = [], form_img = [] \<rparr>"

definition editing_screen :: "product list \<Rightarrow> product option \<Rightarrow> pstate" where
  "editing_screen ps e = (screen ps)\<lparr>showModal := True, editing := e, form := tea_form\<rparr>"

text \<open>The screen with the delete confirmation open.\<close>

definition deleting_screen :: "product list \<Rightarrow> string \<Rightarrow> pstate" where
  "deleting_screen ps i = (screen ps)\<lparr>confirmOpen := True, toDeleteId := Some i\<rparr>"

text \<open>A reservation already stored for 5 November, 19:00.\<close>

definition taken :: reservation_doc where
  "taken =
     \<lparr> rd_id = ''x1'',
       rd_data = \<lparr> res_name = ''Omar'', res_phone = ''0111'', res_date = ''2026-11-05'',
                   res_time = ''19:00'', res_guests = 4 \<rparr>,
       rd_createdAt = 1 \<rparr>"

text \<open>
  Two products created at the same instant, in the order in which the store lists them
  (Firestore breaks ties of the sort key by document id, in the direction of the sort).
\<close>

definition ties :: "doc list" where
  "ties = [mk_doc ''b'' 1, mk_doc ''a'' 1]"

section \<open>Running a handler, effect by effect\<close>

lemma exec_Return: "exec (Return a) xs s = (s, [], Some a)"
  by (cases xs) simp_all

lemma exec_Update:
  "exec (Update u p) xs s =
     (case exec p xs (u s) of (s', ev, a) \<Rightarrow> (s', Wrote (u s) # ev, a))"
  by (cases xs; cases "run_sync p (u s)") (auto split: proc.splits prod.splits)

lemma exec_Notify:
  "exec (Notify n p) xs s =
     (case exec p xs s of (s', ev, a) \<Rightarrow> (s', Showed n # ev, a))"
  by (cases xs; cases "run_sync p s") (auto split: proc.splits prod.splits)

lemma exec_Await_Nil: "exec (Await q k) [] s = (s, [Called q], None)"
  by simp

lemma exec_Await_Cons:
  "exec (Await q k) (x # xs) s =
     (case exec (k x) xs s of (s', ev, a) \<Rightarrow> (s', Called q # ev, a))"
  by (simp split: prod.splits)

lemmas exec_proc = exec_Return exec_Update exec_Notify exec_Await_Nil exec_Await_Cons

section \<open>The featured limit\<close>

text \<open>
  C4. A toggle to not featured is never refused. A toggle to featured is refused exactly
  when the local list already holds at least K featured entries, K being the constant of
  the screen (\<open>MAX_FEATURED\<close> in the products screen, the literal 6 in the reviews
  screen); a refused toggle shows the limit notice, leaves the local state as it was and
  issues no remote call, whatever the store would have answered. Every other toggle
  issues the remote update of the flag, and nothing else.
\<close>

theorem trySetFeatured_limit:
  "((exec (toggleFeatured s p) xs s = (s, [Showed ToastWarning], Some ()))
      = (\<not> featured p \<and> MAX_FEATURED \<le> length (filter featured (products s))))
   \<and> calls (events_of (exec (toggleFeatured s p) xs s)) =
       (if \<not> featured p \<and> MAX_FEATURED \<le> length (filter featured (products s)) then []
        else [UpdateFeatured (pid p) (\<not> featured p)])
   \<and> ((exec (toggleFeatured_review t r) ys t = (t, [Showed AlertBox], Some ()))
      = (\<not> r_featured r \<and> 6 \<le> length (filter r_featured (reviews t))))
   \<and> calls (events_of (exec (toggleFeatured_review t r) ys t)) =
       (if \<not> r_featured r \<and> 6 \<le> length (filter r_featured (reviews t)) then []
        else [UpdateReviewFeatured (r_id r) (\<not> r_featured r)])"
proof -
  have P1: "(exec (toggleFeatured s p) xs s = (s, [Showed ToastWarning], Some ()))
      = (\<not> featured p \<and> MAX_FEATURED \<le> length (filter featured (products s)))"
    by (cases xs)
       (auto simp: toggleFeatured_def exec_proc simp del: exec.simps
             split: response.splits prod.splits)
  have P2: "calls (events_of (exec (toggleFeatured s p) xs s)) =
       (if \<not> featured p \<and> MAX_FEATURED \<le> length (filter featured (products s)) then []
        else [UpdateFeatured (pid p) (\<not> featured p)])"
    by (cases xs)
       (auto simp: toggleFeatured_def events_of_def exec_proc simp del: exec.simps
             split: response.splits prod.splits)
  have R1: "(exec (toggleFeatured_review t r) ys t = (t, [Showed AlertBox], Some ()))
      = (\<not> r_featured r \<and> 6 \<le> length (filter r_featured (reviews t)))"
    by (cases ys)
       (auto simp: toggleFeatured_review_def exec_proc simp del: exec.simps
             split: response.splits prod.splits)
  have R2: "calls (events_of (exec (toggleFeatured_review t r) ys t)) =
       (if \<not> r_featured r \<and> 6 \<le> length (filter r_featured (reviews t)) then []
        else [UpdateReviewFeatured (r_id r) (\<not> r_featured r)])"
    by (cases ys)
       (auto simp: toggleFeatured_review_def events_of_def exec_proc simp del: exec.simps
             split: response.splits prod.splits)
  from P1 P2 R1 R2 show ?thesis by blast
qed

text \<open>
  With six featured products, featuring the seventh is refused and removing the flag from
  the first is sent to the store.
\<close>

theorem trySetFeatured_limit_witness:
  "exec (toggleFeatured (screen six_featured) (mk_product ''g'' 1 False)) [Ack]
        (screen six_featured)
     = (screen six_featured, [Showed ToastWarning], Some ())
   \<and> calls (events_of (exec (toggleFeatured (screen six_featured) (mk_product ''a'' 7 True))
        [Ack] (screen six_featured))) = [UpdateFeatured ''a'' False]"
  using trySetFeatured_limit [of "screen six_featured" "mk_product ''g'' 1 False" "[Ack]"]
        trySetFeatured_limit [of "screen six_featured" "mk_product ''a'' 7 True" "[Ack]"]
  by (simp add: six_featured_def screen_def mk_product_def MAX_FEATURED_def)

text \<open>
  C3. In the reviews screen the limit is meant to be three: featuring a review while three
  reviews of the local list are featured should be refused without any local or remote
  change. The code compares with 6: at three featured reviews the fourth is sent to the
  store and, once the store has accepted it, four reviews are featured locally.
\<close>

theorem reviews_fourth_featured:
  "calls (events_of (exec (toggleFeatured_review three_featured (mk_review ''r4'' False))
       [Ack] three_featured))
     = [UpdateReviewFeatured ''r4'' True]
   \<and> map r_featured (reviews (state_of
       (exec (toggleFeatured_review three_featured (mk_review ''r4'' False))
          [Ack] three_featured)))
     = [True, True, True, True]"
  by (simp add: toggleFeatured_review_def three_featured_def mk_review_def exec_proc
        events_of_def state_of_def del: exec.simps)

section \<open>The reservation guard\<close>

text \<open>
  C10. When the date or the time of the form is the empty string, \<^verbatim>\<open>checkAvailability\<close>
  returns \<^verbatim>\<open>true\<close> with no query and no state change, and the only remote call of the
  submission is the reservation create.
\<close>

theorem checkAvailability_blank:
  "res_date (formData s) = [] \<or> res_time (formData s) = [] \<Longrightarrow>
     exec (checkAvailability s) xs s = (s, [], Some True)
     \<and> calls (events_of (exec (handleSubmit now s) xs s)) = [AddReservation (formData s) now]"
  by (cases xs)
     (auto simp: checkAvailability_def handleSubmit_def exec_proc events_of_def
           simp del: exec.simps split: response.splits prod.splits)

theorem checkAvailability_blank_witness:
  "exec (checkAvailability (booking [] ''19:00'')) [] (booking [] ''19:00'')
     = (booking [] ''19:00'', [], Some True)
   \<and> calls (events_of (exec (handleSubmit 5 (booking [] ''19:00'')) [] (booking [] ''19:00'')))
     = [AddReservation (formData (booking [] ''19:00'')) 5]"
  using checkAvailability_blank [of "booking [] ''19:00''" "[]" 5]
  by (simp add: booking_def)

text \<open>
  C8, as the code has it. When the availability query itself fails, \<^verbatim>\<open>checkAvailability\<close>
  returns \<^verbatim>\<open>false\<close>, the very result it returns for an occupied slot: there is no third
  result. The submission then shows the slot-taken message and issues no reservation
  create; the failed query is its only remote call.
\<close>

theorem availability_failure:
  "res_date (formData s) \<noteq> [] \<Longrightarrow> res_time (formData s) \<noteq> [] \<Longrightarrow>
     returned (exec (checkAvailability s) (Failed # xs) s) = Some False
   \<and> returned (exec (checkAvailability s) (Docs (d # ds) # xs) s) = Some False
   \<and> calls (events_of (exec (handleSubmit now s) (Failed # xs) s))
       = [QuerySlot (res_date (formData s)) (res_time (formData s))]
   \<and> errorMsg (state_of (exec (handleSubmit now s) (Failed # xs) s)) = SlotTaken"
  by (simp add: checkAvailability_def handleSubmit_def exec_proc returned_def events_of_def
        state_of_def del: exec.simps)

theorem availability_failure_witness:
  "returned (exec (checkAvailability (booking ''2026-11-05'' ''19:00'')) [Failed]
       (booking ''2026-11-05'' ''19:00'')) = Some False
   \<and> calls (events_of (exec (handleSubmit 5 (booking ''2026-11-05'' ''19:00'')) [Failed]
       (booking ''2026-11-05'' ''19:00''))) = [QuerySlot ''2026-11-05'' ''19:00'']
   \<and> errorMsg (state_of (exec (handleSubmit 5 (booking ''2026-11-05'' ''19:00'')) [Failed]
       (booking ''2026-11-05'' ''19:00''))) = SlotTaken"
  using availability_failure [of "booking ''2026-11-05'' ''19:00''" "[]" taken "[]" 5]
  by (simp add: booking_def)

text \<open>
  The claim C8 asks for a result distinct from Conflict. For the slot of 5 November at
  19:00 a failed query and a query that finds the slot taken give the same result, and
  the whole submission runs the same way in both cases.
\<close>

theorem unknown_is_conflict:
  "returned (exec (checkAvailability (booking ''2026-11-05'' ''19:00'')) [Failed]
       (booking ''2026-11-05'' ''19:00''))
     = returned (exec (checkAvailability (booking ''2026-11-05'' ''19:00'')) [Docs [taken]]
       (booking ''2026-11-05'' ''19:00''))
   \<and> exec (handleSubmit 5 (booking ''2026-11-05'' ''19:00'')) [Failed]
       (booking ''2026-11-05'' ''19:00'')
     = exec (handleSubmit 5 (booking ''2026-11-05'' ''19:00'')) [Docs [taken]]
       (booking ''2026-11-05'' ''19:00'')"
  by (simp add: checkAvailability_def handleSubmit_def booking_def exec_proc returned_def
        del: exec.simps)

section \<open>Product mutations whose remote commit fails\<close>

lemma validate_tea_form: "validate tea_form = []"
  by (simp add: validate_def tea_form_def trim_def is_space_def js_def)

lemma productData_of_tea_form:
  "productData_of t tea_form =
     \<lparr> pd_name = js ''mint tea'', pd_category = js ''drinks'', pd_price = 35,
       pd_description = [], pd_img = [], pd_createdAt = t, pd_featured = False \<rparr>"
  by (simp add: productData_of_def tea_form_def trim_def is_space_def js_def)




section \<open>The creation time under an update\<close>

text \<open>
  C2. An update should leave \<^verbatim>\<open>createdAt\<close> as it is, locally and in the fields sent to the
  store. The edit path of \<^verbatim>\<open>handleSave\<close> reuses the object built for a create, whose
  \<^verbatim>\<open>createdAt\<close> is \<^verbatim>\<open>new Date()\<close>: a product created at instant 7 and edited at instant 99
  has \<^verbatim>\<open>createdAt\<close> 99 afterwards, locally and in the update sent to the store.
\<close>

theorem update_overwrites_createdAt:
  "map createdAt (products
       (editing_screen [mk_product ''a'' 7 True] (Some (mk_product ''a'' 7 True)))) = [7]
   \<and> map createdAt (products (state_of (exec
       (handleSave 99 (editing_screen [mk_product ''a'' 7 True] (Some (mk_product ''a'' 7 True))))
       [Ack]
       (editing_screen [mk_product ''a'' 7 True] (Some (mk_product ''a'' 7 True)))))) = [99]
   \<and> calls (events_of (exec
       (handleSave 99 (editing_screen [mk_product ''a'' 7 True] (Some (mk_product ''a'' 7 True))))
       [Ack]
       (editing_screen [mk_product ''a'' 7 True] (Some (mk_product ''a'' 7 True)))))
     = [UpdateProduct ''a''
          \<lparr> pd_name = js ''mint tea'', pd_category = js ''drinks'', pd_price = 35,
            pd_description = [], pd_img = [], pd_createdAt = 99, pd_featured = False \<rparr>]"
  by (simp add: handleSave_def validate_tea_form productData_of_tea_form spread_def with_id_def
        editing_screen_def screen_def mk_product_def exec_proc state_of_def events_of_def
        del: exec.simps)

section \<open>Local change and remote write: which comes first\<close>




section \<open>The component, step by step\<close>

lemma start_Await:
  "start (Await q k) (s, tr, pool) = (s, tr @ [Called q], pool @ [Await q k])"
  by (simp add: start_def suspended_def)

lemma effect_eq:
  "effect now (s, tr, pool) =
     (s, tr @ [Called (QueryPage None PAGE_SIZE), Called QueryCategories],
      pool @ [fetchProducts now, fetchCategories])"
  by (simp add: effect_def fetchProducts_def fetchCategories_def start_Await)

lemma mount_eq:
  "mount now =
     (initial, [Called (QueryPage None PAGE_SIZE), Called QueryCategories],
      [fetchProducts now, fetchCategories])"
  by (simp add: mount_def effect_eq)

lemma press_toggleFeatured:
  assumes "featured q \<or> length (filter featured (products s)) < MAX_FEATURED"
  shows "press now (\<lambda>s. toggleFeatured s q) (s, tr, pool) =
     (toggled q s,
      tr @ [Wrote (toggled q s), Called (UpdateFeatured (pid q) (\<not> featured q)),
            Called (QueryPage None PAGE_SIZE), Called QueryCategories],
      pool @ [Await (UpdateFeatured (pid q) (\<not> featured q))
                (\<lambda>r. case r of Failed \<Rightarrow> Notify ToastError (Return ())
                             | _ \<Rightarrow> Notify ToastSuccess (Return ())),
              fetchProducts now, fetchCategories])"
  using assms
  by (auto simp: press_def start_def settle_def suspended_def toggleFeatured_def toggled_def
        state_of_def events_of_def effect_eq)

lemma press_handleDelete:
  assumes "toDeleteId s = Some i" "i \<noteq> []"
  shows "products (state_of (press now handleDelete (s, tr, pool)))
           = filter (\<lambda>q. pid q \<noteq> i) (products s)
       \<and> calls (drop (length tr) (events_of (press now handleDelete (s, tr, pool))))
           = [DeleteProduct i, QueryPage None PAGE_SIZE, QueryCategories]"
  using assms
  by (simp add: press_def start_def settle_def suspended_def handleDelete_def
        state_of_def events_of_def effect_eq)

lemma press_handleSave:
  assumes "validate (form s) = []" "editing s = Some ed"
  shows "products (state_of (press now (handleSave now) (s, tr, pool)))
           = map (\<lambda>q. if pid q = pid ed then spread q (productData_of now (form s)) else q)
               (products s)
       \<and> calls (drop (length tr) (events_of (press now (handleSave now) (s, tr, pool))))
           = [UpdateProduct (pid ed) (productData_of now (form s)),
              QueryPage None PAGE_SIZE, QueryCategories]"
  using assms
  by (simp add: press_def start_def settle_def suspended_def handleSave_def
        state_of_def events_of_def effect_eq)

lemma toggled_twice:
  "products (toggled (p\<lparr>featured := \<not> featured p\<rparr>) (toggled p s))
     = map (\<lambda>q. if pid q = pid p then p else q) (products s)"
  by (simp add: toggled_def comp_def cong: if_cong)

lemma two_toggles_eq:
  assumes A1: "featured p \<or> length (filter featured (products s)) < MAX_FEATURED"
    and A2: "\<not> featured p \<or> length (filter featured (products (toggled p s))) < MAX_FEATURED"
  shows "two_toggles now p (s, tr, pool) =
     (toggled (p\<lparr>featured := \<not> featured p\<rparr>) (toggled p s),
      tr @ [Wrote (toggled p s), Called (UpdateFeatured (pid p) (\<not> featured p)),
            Called (QueryPage None PAGE_SIZE), Called QueryCategories,
            Wrote (toggled (p\<lparr>featured := \<not> featured p\<rparr>) (toggled p s)),
            Called (UpdateFeatured (pid p) (featured p)),
            Called (QueryPage None PAGE_SIZE), Called QueryCategories],
      pool @ [Await (UpdateFeatured (pid p) (\<not> featured p))
                (\<lambda>r. case r of Failed \<Rightarrow> Notify ToastError (Return ())
                             | _ \<Rightarrow> Notify ToastSuccess (Return ())),
              fetchProducts now, fetchCategories,
              Await (UpdateFeatured (pid p) (featured p))
                (\<lambda>r. case r of Failed \<Rightarrow> Notify ToastError (Return ())
                             | _ \<Rightarrow> Notify ToastSuccess (Return ())),
              fetchProducts now, fetchCategories])"
proof -
  have B: "featured (p\<lparr>featured := \<not> featured p\<rparr>)
      \<or> length (filter featured (products (toggled p s))) < MAX_FEATURED"
    using A2 by simp
  show ?thesis
    unfolding two_toggles_def press_toggleFeatured [OF A1]
    by (simp add: press_toggleFeatured [OF B])
qed

lemma answer_Ack_toggle:
  "pool ! i = Await (UpdateFeatured a b)
                (\<lambda>r. case r of Failed \<Rightarrow> Notify ToastError (Return ())
                             | _ \<Rightarrow> Notify ToastSuccess (Return ())) \<Longrightarrow> i < length pool \<Longrightarrow>
   answer now i Ack (s, tr, pool) = (s, tr @ [Showed ToastSuccess], take i pool @ drop (Suc i) pool)"
  by (simp add: answer_def resolve_def settle_def events_of_def suspended_def)

lemma press_loadMore_exhausted:
  "lastDoc (state_of sys) = None \<Longrightarrow> press now (loadMore now) sys = sys"
  by (cases sys)
     (simp add: press_def start_def loadMore_def settle_def events_of_def state_of_def
        suspended_def)

section \<open>Two mutations of one product\<close>

text \<open>
  C9, as the code has it. Mutations of one product are not queued. Whatever calls are
  still pending, a delete, an update and a featured toggle each change the local list at
  once, as it then is (after an earlier mutation, the list that already carries that
  mutation's change, not the list before it), and issue their remote write at once,
  followed by the two queries of the effect. For two featured toggles of one product,
  the second clicked before the store has answered, both updates are issued in the order
  of the clicks before either resolves, the local list carries the second toggle
  applied to the result of the first, and when the store accepts both updates the two
  answers leave that list as it is, whichever comes first.
\<close>

theorem no_queue:
  assumes A1: "featured p \<or> length (filter featured (products (state_of sys))) < MAX_FEATURED"
    and A2: "\<not> featured p
               \<or> length (filter featured (products (toggled p (state_of sys)))) < MAX_FEATURED"
  shows "(toDeleteId (state_of sys) = Some i \<and> i \<noteq> [] \<longrightarrow>
        products (state_of (press now handleDelete sys))
          = filter (\<lambda>q. pid q \<noteq> i) (products (state_of sys))
      \<and> calls (drop (length (events_of sys)) (events_of (press now handleDelete sys)))
          = [DeleteProduct i, QueryPage None PAGE_SIZE, QueryCategories])
    \<and> (validate (form (state_of sys)) = [] \<and> editing (state_of sys) = Some ed \<longrightarrow>
        products (state_of (press now (handleSave now) sys))
          = map (\<lambda>q. if pid q = pid ed
                      then spread q (productData_of now (form (state_of sys))) else q)
              (products (state_of sys))
      \<and> calls (drop (length (events_of sys)) (events_of (press now (handleSave now) sys)))
          = [UpdateProduct (pid ed) (productData_of now (form (state_of sys))),
             QueryPage None PAGE_SIZE, QueryCategories])
    \<and> products (state_of (press now (\<lambda>s. toggleFeatured s p) sys))
        = products (toggled p (state_of sys))
    \<and> calls (drop (length (events_of sys))
         (events_of (press now (\<lambda>s. toggleFeatured s p) sys)))
        = [UpdateFeatured (pid p) (\<not> featured p), QueryPage None PAGE_SIZE, QueryCategories]
    \<and> calls (drop (length (events_of sys)) (events_of (two_toggles now p sys)))
        = [UpdateFeatured (pid p) (\<not> featured p), QueryPage None PAGE_SIZE, QueryCategories,
           UpdateFeatured (pid p) (featured p), QueryPage None PAGE_SIZE, QueryCategories]
    \<and> length (returned (two_toggles now p sys)) = length (returned sys) + 6
    \<and> products (state_of (two_toggles now p sys))
        = map (\<lambda>q. if pid q = pid p then p else q) (products (state_of sys))
    \<and> products (state_of (answer now (length (returned sys) + 2) Ack
         (answer now (length (returned sys)) Ack (two_toggles now p sys))))
        = products (state_of (two_toggles now p sys))
    \<and> products (state_of (answer now (length (returned sys)) Ack
         (answer now (length (returned sys) + 3) Ack (two_toggles now p sys))))
        = products (state_of (two_toggles now p sys))"
proof (cases sys)
  case (fields s tr pool)
  from A1 A2 have a: "featured p \<or> length (filter featured (products s)) < MAX_FEATURED"
    "\<not> featured p \<or> length (filter featured (products (toggled p s))) < MAX_FEATURED"
    by (simp_all add: fields state_of_def)
  have D: "toDeleteId (state_of sys) = Some i \<and> i \<noteq> [] \<longrightarrow>
        products (state_of (press now handleDelete sys))
          = filter (\<lambda>q. pid q \<noteq> i) (products (state_of sys))
      \<and> calls (drop (length (events_of sys)) (events_of (press now handleDelete sys)))
          = [DeleteProduct i, QueryPage None PAGE_SIZE, QueryCategories]"
    using press_handleDelete [of s i now tr pool]
    by (simp add: fields state_of_def events_of_def)
  have U: "validate (form (state_of sys)) = [] \<and> editing (state_of sys) = Some ed \<longrightarrow>
        products (state_of (press now (handleSave now) sys))
          = map (\<lambda>q. if pid q = pid ed
                      then spread q (productData_of now (form (state_of sys))) else q)
              (products (state_of sys))
      \<and> calls (drop (length (events_of sys)) (events_of (press now (handleSave now) sys)))
          = [UpdateProduct (pid ed) (productData_of now (form (state_of sys))),
             QueryPage None PAGE_SIZE, QueryCategories]"
    using press_handleSave [of s ed now tr pool]
    by (simp add: fields state_of_def events_of_def)
  have T: "products (state_of (press now (\<lambda>s. toggleFeatured s p) sys))
        = products (toggled p (state_of sys))
    \<and> calls (drop (length (events_of sys))
         (events_of (press now (\<lambda>s. toggleFeatured s p) sys)))
        = [UpdateFeatured (pid p) (\<not> featured p), QueryPage None PAGE_SIZE, QueryCategories]"
    unfolding fields press_toggleFeatured [OF a(1)]
    by (simp add: events_of_def state_of_def)
  have W: "calls (drop (length (events_of sys)) (events_of (two_toggles now p sys)))
        = [UpdateFeatured (pid p) (\<not> featured p), QueryPage None PAGE_SIZE, QueryCategories,
           UpdateFeatured (pid p) (featured p), QueryPage None PAGE_SIZE, QueryCategories]
    \<and> length (returned (two_toggles now p sys)) = length (returned sys) + 6
    \<and> products (state_of (two_toggles now p sys))
        = map (\<lambda>q. if pid q = pid p then p else q) (products (state_of sys))
    \<and> products (state_of (answer now (length (returned sys) + 2) Ack
         (answer now (length (returned sys)) Ack (two_toggles now p sys))))
        = products (state_of (two_toggles now p sys))
    \<and> products (state_of (answer now (length (returned sys)) Ack
         (answer now (length (returned sys) + 3) Ack (two_toggles now p sys))))
        = products (state_of (two_toggles now p sys))"
    unfolding fields two_toggles_eq [OF a]
    by (simp add: events_of_def returned_def state_of_def toggled_twice
          answer_Ack_toggle nth_append)
  from D U T W show ?thesis by blast
qed

text \<open>
  One product that is not featured. Its switch is clicked twice: featured, then not
  featured again, both updates sent, the second accepted first. Its delete is confirmed
  while a toggle is pending: the product leaves the list and the delete is sent at once.
\<close>

theorem no_queue_witness:
  "calls (events_of (two_toggles 0 (mk_product ''a'' 7 False)
       (screen [mk_product ''a'' 7 False], [], [])))
     = [UpdateFeatured ''a'' True, QueryPage None PAGE_SIZE, QueryCategories,
        UpdateFeatured ''a'' False, QueryPage None PAGE_SIZE, QueryCategories]
   \<and> products (state_of (answer 0 0 Ack (answer 0 3 Ack
       (two_toggles 0 (mk_product ''a'' 7 False) (screen [mk_product ''a'' 7 False], [], [])))))
     = [mk_product ''a'' 7 False]
   \<and> products (state_of (press 0 handleDelete
       (press 0 (\<lambda>s. toggleFeatured s (mk_product ''a'' 7 False))
          (deleting_screen [mk_product ''a'' 7 False] ''a'', [], [])))) = []"
proof -
  let ?a = "mk_product ''a'' 7 False"
  let ?s1 = "toggled ?a (deleting_screen [?a] ''a'')"
  obtain tr1 pool1 where m1:
    "press 0 (\<lambda>s. toggleFeatured s ?a) (deleting_screen [?a] ''a'', [], []) = (?s1, tr1, pool1)"
    by (simp add: press_toggleFeatured deleting_screen_def screen_def mk_product_def
          MAX_FEATURED_def)
  have "products (state_of (press 0 handleDelete (?s1, tr1, pool1))) = []"
    using no_queue [where p = "?a\<lparr>featured := True\<rparr>" and sys = "(?s1, tr1, pool1)"
            and i = "''a''" and now = 0 and ed = ?a]
    by (simp add: state_of_def toggled_def deleting_screen_def screen_def mk_product_def
          MAX_FEATURED_def)
  moreover have
    "calls (events_of (two_toggles 0 ?a (screen [?a], [], [])))
       = [UpdateFeatured ''a'' True, QueryPage None PAGE_SIZE, QueryCategories,
          UpdateFeatured ''a'' False, QueryPage None PAGE_SIZE, QueryCategories]
     \<and> products (state_of (answer 0 0 Ack (answer 0 3 Ack
         (two_toggles 0 ?a (screen [?a], [], []))))) = [?a]"
    using no_queue [where p = ?a and sys = "(screen [?a], [], [])"
            and i = "''a''" and now = 0 and ed = ?a]
    by (simp add: screen_def mk_product_def MAX_FEATURED_def toggled_def state_of_def
          events_of_def returned_def)
  ultimately show ?thesis by (simp add: m1)
qed

text \<open>
  The claim C9 asks that the second mutation wait for the first remote commit. After two
  clicks on the featured switch of one product and before any answer of the store, both
  updates have been issued and all six calls are pending; the second handler ran on the
  screen left by the first.
\<close>

theorem not_queued:
  "calls (events_of
       (press 0 (\<lambda>s. toggleFeatured s (mk_product ''a'' 7 True))
         (press 0 (\<lambda>s. toggleFeatured s (mk_product ''a'' 7 False))
            (screen [mk_product ''a'' 7 False], [], []))))
     = [UpdateFeatured ''a'' True, QueryPage None PAGE_SIZE, QueryCategories,
        UpdateFeatured ''a'' False, QueryPage None PAGE_SIZE, QueryCategories]
   \<and> length (returned
       (press 0 (\<lambda>s. toggleFeatured s (mk_product ''a'' 7 True))
         (press 0 (\<lambda>s. toggleFeatured s (mk_product ''a'' 7 False))
            (screen [mk_product ''a'' 7 False], [], [])))) = 6
   \<and> state_of
       (press 0 (\<lambda>s. toggleFeatured s (mk_product ''a'' 7 False))
          (screen [mk_product ''a'' 7 False], [], []))
     = screen [mk_product ''a'' 7 True]"
  by (simp add: press_def start_def settle_def effect_eq suspended_def toggleFeatured_def
        screen_def mk_product_def MAX_FEATURED_def events_of_def returned_def state_of_def)

section \<open>Pagination\<close>

lemma paged_0_state:
  "state_of (paged now xs 0) =
     initial\<lparr>products := map (normalizeDoc now) (take PAGE_SIZE xs),
       lastDoc := (if xs = [] then None else Some (last (take PAGE_SIZE xs)))\<rparr>"
  by (simp add: mount_eq answer_page_def returned_def fetchProducts_def answer_def resolve_def
        settle_def events_of_def effect_eq state_of_def suspended_def queryPage_def PAGE_SIZE_def)

lemma load_more_state:
  "state_of (load_more now xs sys) =
     (case lastDoc (state_of sys) of
        None \<Rightarrow> state_of sys
      | Some d \<Rightarrow>
          (if queryPage xs (Some d) PAGE_SIZE \<noteq> [] then
             (state_of sys)\<lparr>
                products := products (state_of sys) @ map (normalizeDoc now) (queryPage xs (Some d) PAGE_SIZE),
                lastDoc := Some (last (queryPage xs (Some d) PAGE_SIZE)),
                loadingMore := False\<rparr>
           else (state_of sys)\<lparr>lastDoc := None, loadingMore := False\<rparr>))"
proof (cases sys)
  case (fields s tr pool)
  show ?thesis
  proof (cases "lastDoc s")
    case None
    then show ?thesis
      by (simp add: fields load_more_def press_def start_def loadMore_def settle_def
            events_of_def state_of_def returned_def suspended_def answer_page_def)
  next
    case (Some d)
    then show ?thesis
      by (simp add: fields load_more_def press_def start_def loadMore_def settle_def
            events_of_def state_of_def returned_def suspended_def answer_page_def
            effect_eq answer_def resolve_def nth_append)
  qed
qed

lemma dropWhile_at:
  "distinct (map doc_id xs) \<Longrightarrow> k < length xs \<Longrightarrow>
     dropWhile (\<lambda>x. doc_id x \<noteq> doc_id (xs ! k)) xs = drop k xs"
proof (induction xs arbitrary: k)
  case Nil
  then show ?case by simp
next
  case (Cons a xs)
  show ?case
  proof (cases k)
    case 0
    then show ?thesis by simp
  next
    case (Suc j)
    with Cons.prems have "j < length xs" and "doc_id (xs ! j) \<in> set (map doc_id xs)"
      by auto
    with Cons.prems have "doc_id a \<noteq> doc_id (xs ! j)" by auto
    with Cons Suc \<open>j < length xs\<close> show ?thesis by simp
  qed
qed

lemma queryPage_at:
  assumes "distinct (map doc_id xs)" "0 < k" "k \<le> length xs"
  shows "queryPage xs (Some (xs ! (k - 1))) n = take n (drop k xs)"
proof -
  from assms have "k - 1 < length xs" by simp
  with assms(1) have "dropWhile (\<lambda>x. doc_id x \<noteq> doc_id (xs ! (k - 1))) xs = drop (k - 1) xs"
    by (rule dropWhile_at)
  moreover have "tl (drop (k - 1) xs) = drop k xs"
    using assms(2) by (simp add: drop_Suc [symmetric] tl_drop)
  ultimately show ?thesis by (simp add: queryPage_def)
qed

lemma last_page:
  assumes lt: "k < length xs"
  shows "last (take PAGE_SIZE (drop k xs)) = xs ! (min (k + PAGE_SIZE) (length xs) - 1)"
proof -
  let ?m = "min PAGE_SIZE (length xs - k)"
  from lt have m: "0 < ?m" by (simp add: PAGE_SIZE_def)
  then have "take PAGE_SIZE (drop k xs) \<noteq> []" using lt by (auto simp: PAGE_SIZE_def)
  then have "last (take PAGE_SIZE (drop k xs)) = take PAGE_SIZE (drop k xs) ! (?m - 1)"
    by (simp add: last_conv_nth min.commute)
  also have "\<dots> = xs ! (k + (?m - 1))"
    using m lt by (simp add: PAGE_SIZE_def)
  also have "k + (?m - 1) = min (k + PAGE_SIZE) (length xs) - 1"
    using m lt unfolding PAGE_SIZE_def min_def by (auto split: if_splits)
  finally show ?thesis .
qed

lemma load_more_step:
  assumes d: "distinct (map doc_id xs)" and k: "0 < k" "k \<le> length xs"
    and p: "products (state_of sys) = map (normalizeDoc now) (take k xs)"
    and l: "lastDoc (state_of sys) = Some (xs ! (k - 1))"
  shows "products (state_of (load_more now xs sys))
           = map (normalizeDoc now) (take (min (k + PAGE_SIZE) (length xs)) xs)"
    and "lastDoc (state_of (load_more now xs sys))
           = (if k = length xs then None else Some (xs ! (min (k + PAGE_SIZE) (length xs) - 1)))"
proof -
  obtain c where c: "lastDoc (state_of sys) = Some c"
      and q: "queryPage xs (Some c) PAGE_SIZE = take PAGE_SIZE (drop k xs)"
    using l queryPage_at [OF d k] by blast
  have e: "(take PAGE_SIZE (drop k xs) = []) = (k = length xs)"
    using k by (auto simp: PAGE_SIZE_def)
  have t: "take k xs @ take PAGE_SIZE (drop k xs) = take (min (k + PAGE_SIZE) (length xs)) xs"
    by (simp add: take_add min_def)
  show "products (state_of (load_more now xs sys))
           = map (normalizeDoc now) (take (min (k + PAGE_SIZE) (length xs)) xs)"
    using e t [symmetric] k by (simp add: load_more_state c q p)
  show "lastDoc (state_of (load_more now xs sys))
           = (if k = length xs then None else Some (xs ! (min (k + PAGE_SIZE) (length xs) - 1)))"
    using e last_page [of k xs] k by (auto simp add: load_more_state c q)
qed

lemma load_all_from:
  assumes d: "distinct (map doc_id xs)"
  shows "0 < k \<Longrightarrow> k \<le> length xs \<Longrightarrow>
         products (state_of sys) = map (normalizeDoc now) (take k xs) \<Longrightarrow>
         lastDoc (state_of sys) = Some (xs ! (k - 1)) \<Longrightarrow>
         \<exists>sys'. load_all now xs sys = Some sys'
               \<and> products (state_of sys') = map (normalizeDoc now) xs
               \<and> lastDoc (state_of sys') = None"
proof (induction "length xs - k" arbitrary: k sys rule: less_induct)
  case less
  let ?s1 = "load_more now xs sys"
  note step = load_more_step [OF d less.prems]
  have unf: "load_all now xs sys = load_all now xs ?s1"
    using less.prems(4) by (subst load_all.simps) simp
  show ?case
  proof (cases "k = length xs")
    case True
    with step have "products (state_of ?s1) = map (normalizeDoc now) xs"
      "lastDoc (state_of ?s1) = None" by simp_all
    moreover from this have "load_all now xs ?s1 = Some ?s1" by (subst load_all.simps) simp
    ultimately show ?thesis using unf by simp
  next
    case False
    let ?k' = "min (k + PAGE_SIZE) (length xs)"
    from False less.prems have lt: "k < length xs" by simp
    then have k': "0 < ?k'" "?k' \<le> length xs" "length xs - ?k' < length xs - k"
      by (auto simp: PAGE_SIZE_def)
    from step False have "products (state_of ?s1) = map (normalizeDoc now) (take ?k' xs)"
      "lastDoc (state_of ?s1) = Some (xs ! (?k' - 1))" by simp_all
    from less.hyps [OF k'(3) k'(1) k'(2) this] unf show ?thesis by simp
  qed
qed

lemma load_all_pages:
  assumes d: "distinct (map doc_id xs)"
  shows "\<exists>sys'. load_all now xs (paged now xs 0) = Some sys'
           \<and> products (state_of sys') = map (normalizeDoc now) xs
           \<and> lastDoc (state_of sys') = None"
proof (cases "xs = []")
  case True
  then have "lastDoc (state_of (paged now xs 0)) = None"
    "products (state_of (paged now xs 0)) = []"
    by (simp_all add: paged_0_state del: paged.simps)
  then show ?thesis using True by (subst load_all.simps) simp
next
  case False
  let ?k = "min PAGE_SIZE (length xs)"
  from False have k: "0 < ?k" "?k \<le> length xs" by (auto simp: PAGE_SIZE_def)
  have "products (state_of (paged now xs 0)) = map (normalizeDoc now) (take ?k xs)"
    by (simp add: paged_0_state min_def del: paged.simps)
  moreover have "last (take PAGE_SIZE xs) = xs ! (?k - 1)"
    using False last_page [of 0 xs] by simp
  then have "lastDoc (state_of (paged now xs 0)) = Some (xs ! (?k - 1))"
    using False by (simp add: paged_0_state del: paged.simps)
  ultimately show ?thesis using k load_all_from [OF d] by blast
qed

lemma newest_first_products:
  "newest_first ds \<Longrightarrow>
     sorted_wrt (\<lambda>a b. createdAt b \<le> createdAt a) (map (normalizeDoc now) ds)"
  unfolding newest_first_def sorted_wrt_map
  by (erule sorted_wrt_mono_rel [rotated]) (auto simp: normalizeDoc_def split: option.splits)

lemma paged_Suc_state:
  "state_of (paged now xs (Suc n)) =
     (case lastDoc (state_of (paged now xs n)) of
        None \<Rightarrow> state_of (paged now xs n)
      | Some d \<Rightarrow>
          (if queryPage xs (Some d) PAGE_SIZE \<noteq> [] then
             (state_of (paged now xs n))\<lparr>
                products := products (state_of (paged now xs n))
                              @ map (normalizeDoc now) (queryPage xs (Some d) PAGE_SIZE),
                lastDoc := Some (last (queryPage xs (Some d) PAGE_SIZE)),
                loadingMore := False\<rparr>
           else (state_of (paged now xs n))\<lparr>lastDoc := None, loadingMore := False\<rparr>))"
  by (simp add: load_more_state)

lemma twelve_lengths:
  "map (\<lambda>n. length (products (state_of (paged 0 twelve n)))) [0, 1, 2, 3] = [5, 10, 12, 12]"
  by (simp add: eval_nat_numeral paged_0_state paged_Suc_state twelve_def mk_doc_def
        queryPage_def PAGE_SIZE_def initial_def del: paged.simps)

lemma twelve_cursors:
  "map (\<lambda>n. lastDoc (state_of (paged 0 twelve n))) [0, 1, 2, 3]
     = [Some (mk_doc ''p08'' 8), Some (mk_doc ''p03'' 3), Some (mk_doc ''p01'' 1), None]"
  by (simp add: eval_nat_numeral paged_0_state paged_Suc_state twelve_def mk_doc_def
        queryPage_def PAGE_SIZE_def initial_def del: paged.simps)

lemma paged_0_pool:
  "returned (paged now xs 0) = [fetchCategories, fetchProducts now, fetchCategories]"
  by (simp add: mount_eq answer_page_def returned_def fetchProducts_def answer_def resolve_def
        settle_def events_of_def effect_eq suspended_def)

lemma load_more_pool:
  "lastDoc (state_of sys) = Some d \<Longrightarrow>
     returned (load_more now xs sys)
       = returned sys @ [fetchProducts now, fetchCategories, fetchProducts now, fetchCategories]"
proof (cases sys)
  case (fields s tr pool)
  assume "lastDoc (state_of sys) = Some d"
  then show ?thesis
    by (simp add: fields load_more_def press_def start_def loadMore_def settle_def
          events_of_def state_of_def returned_def suspended_def answer_page_def
          effect_eq answer_def resolve_def nth_append)
qed

lemma answer_first_page:
  "i < length (returned sys) \<Longrightarrow> returned sys ! i = fetchProducts now \<Longrightarrow>
     state_of (answer_page now xs i sys) =
       (state_of sys)\<lparr>products := map (normalizeDoc now) (take PAGE_SIZE xs),
         lastDoc := (if xs = [] then None else Some (last (take PAGE_SIZE xs)))\<rparr>"
proof (cases sys)
  case (fields s tr pool)
  assume "i < length (returned sys)" "returned sys ! i = fetchProducts now"
  then show ?thesis
    by (simp add: fields answer_page_def returned_def fetchProducts_def answer_def resolve_def
        settle_def events_of_def effect_eq state_of_def suspended_def queryPage_def PAGE_SIZE_def)
qed

text \<open>
  What the effect does to the accumulated list. After one load the screen shows ten of the
  twelve products; the first-page query that the effect issued after the first render is
  still pending, and once the store answers it the list is the first page again and the
  cursor is back on its last product.
\<close>

lemma first_page_again:
  "length (products (state_of (paged 0 twelve 1))) = 10
   \<and> length (products (state_of (answer_page 0 twelve 1 (paged 0 twelve 1)))) = 5
   \<and> lastDoc (state_of (answer_page 0 twelve 1 (paged 0 twelve 1))) = Some (mk_doc ''p08'' 8)"
proof -
  have c: "lastDoc (state_of (paged 0 twelve 0)) = Some (mk_doc ''p08'' 8)"
    using twelve_cursors by simp
  have "returned (paged 0 twelve 1) =
      [fetchCategories, fetchProducts 0, fetchCategories,
       fetchProducts 0, fetchCategories, fetchProducts 0, fetchCategories]"
    using load_more_pool [OF c, of 0 twelve] by (simp add: paged_0_pool del: paged.simps(1))
  then have "1 < length (returned (paged 0 twelve 1))"
    and "returned (paged 0 twelve 1) ! 1 = fetchProducts 0"
    by simp_all
  from answer_first_page [OF this, of twelve] twelve_lengths show ?thesis
    by (simp add: twelve_def mk_doc_def PAGE_SIZE_def del: paged.simps)
qed

text \<open>
  C5, as the code has it. The cursor becomes exhausted exactly when a page query returns
  no document at all, for the first page and for every later one; a page shorter than the
  page size leaves the cursor on its last document. \<^verbatim>\<open>loadMore\<close> on an exhausted cursor
  returns at once, with no query and no state change. With page size 5 and twelve
  products in the store, and as long as no other query of the screen is answered in
  between, the accumulated list has 5, 10 and 12 products after the first page and two
  further loads, the cursor being live each time; the third load queries again, receives
  nothing and exhausts the cursor; a fourth press does nothing.
\<close>

theorem cursor_exhaustion:
  "((lastDoc (state_of (exec (fetchProducts now) (Docs ds # xs) s)) = None) = (ds = []))
   \<and> (lastDoc s = Some d \<longrightarrow>
        (lastDoc (state_of (exec (loadMore now s) (Docs ds # xs) s)) = None) = (ds = []))
   \<and> (lastDoc s = None \<longrightarrow> exec (loadMore now s) xs s = (s, [], Some ()))
   \<and> map (\<lambda>n. length (products (state_of (paged 0 twelve n)))) [0, 1, 2, 3] = [5, 10, 12, 12]
   \<and> map (\<lambda>n. lastDoc (state_of (paged 0 twelve n)) = None) [0, 1, 2, 3]
       = [False, False, False, True]
   \<and> press 0 (loadMore 0) (paged 0 twelve 3) = paged 0 twelve 3"
proof -
  have F: "(lastDoc (state_of (exec (fetchProducts now) (Docs ds # xs) s)) = None) = (ds = [])"
    by (simp add: fetchProducts_def exec_proc state_of_def del: exec.simps)
  have M: "lastDoc s = Some d \<Longrightarrow>
        (lastDoc (state_of (exec (loadMore now s) (Docs ds # xs) s)) = None) = (ds = [])"
    by (simp add: loadMore_def exec_proc state_of_def del: exec.simps)
  have E: "lastDoc s = None \<Longrightarrow> exec (loadMore now s) xs s = (s, [], Some ())"
    by (simp add: loadMore_def exec_proc del: exec.simps)
  have C: "map (\<lambda>n. lastDoc (state_of (paged 0 twelve n)) = None) [0, 1, 2, 3]
       = [False, False, False, True]"
    using twelve_cursors by simp
  then have "lastDoc (state_of (paged 0 twelve 3)) = None" by simp
  then have L: "press 0 (loadMore 0) (paged 0 twelve 3) = paged 0 twelve 3"
    by (rule press_loadMore_exhausted)
  from F M E C L twelve_lengths show ?thesis by blast
qed

theorem cursor_exhaustion_witness:
  "lastDoc (state_of (exec (loadMore 0 (state_of (paged 0 twelve 2))) [Docs [mk_doc ''p00'' 0]]
       (state_of (paged 0 twelve 2)))) \<noteq> None
   \<and> lastDoc (state_of (exec (loadMore 0 (state_of (paged 0 twelve 2))) [Docs []]
       (state_of (paged 0 twelve 2)))) = None
   \<and> exec (loadMore 0 (state_of (paged 0 twelve 3))) [] (state_of (paged 0 twelve 3))
     = (state_of (paged 0 twelve 3), [], Some ())"
  using cursor_exhaustion [of 0 "[mk_doc ''p00'' 0]" "[]" "state_of (paged 0 twelve 2)"
          "mk_doc ''p01'' 1"]
        cursor_exhaustion [of 0 "[]" "[]" "state_of (paged 0 twelve 2)" "mk_doc ''p01'' 1"]
        cursor_exhaustion [of 0 "[]" "[]" "state_of (paged 0 twelve 3)" "mk_doc ''p01'' 1"]
        twelve_cursors
  by (simp del: paged.simps)

text \<open>
  The claim C5 asks that a page shorter than the page size exhaust the cursor and that the
  third load fail without a query. With twelve products the second load receives two
  documents and the cursor stays on the last of them; the third load queries the store
  after that document.
\<close>

theorem short_page_keeps_cursor:
  "length (queryPage twelve (lastDoc (state_of (paged 0 twelve 1))) PAGE_SIZE) = 2
   \<and> lastDoc (state_of (paged 0 twelve 2)) = Some (mk_doc ''p01'' 1)
   \<and> calls (events_of (exec (loadMore 0 (state_of (paged 0 twelve 2))) []
       (state_of (paged 0 twelve 2)))) = [QueryPage (Some (mk_doc ''p01'' 1)) PAGE_SIZE]"
proof -
  have c: "lastDoc (state_of (paged 0 twelve 1)) = Some (mk_doc ''p03'' 3)"
    "lastDoc (state_of (paged 0 twelve 2)) = Some (mk_doc ''p01'' 1)"
    using twelve_cursors by simp_all
  have "length (queryPage twelve (Some (mk_doc ''p03'' 3)) PAGE_SIZE) = 2"
    by (simp add: queryPage_def twelve_def mk_doc_def PAGE_SIZE_def)
  moreover have "calls (events_of (exec (loadMore 0 (state_of (paged 0 twelve 2))) []
      (state_of (paged 0 twelve 2)))) = [QueryPage (Some (mk_doc ''p01'' 1)) PAGE_SIZE]"
    by (simp add: loadMore_def c events_of_def exec_proc del: exec.simps paged.simps)
  ultimately show ?thesis using c by simp
qed

text \<open>
  C6, as the code has it. Against a collection that does not change and whose documents
  have distinct ids, and as long as no other query of the screen is answered in between,
  fetching the first page and loading more until the cursor is exhausted comes to an end
  and yields every document of the collection exactly once, in the order in which the
  store lists the collection for the query by descending \<^verbatim>\<open>createdAt\<close>: hence in
  descending \<^verbatim>\<open>createdAt\<close>, products of equal \<^verbatim>\<open>createdAt\<close> in the order the store gives
  them. The client sorts nothing itself.
\<close>

theorem load_all_complete:
  assumes "distinct (map doc_id ordered)" and "newest_first ordered"
  shows "\<exists>sys'. load_all now ordered (paged now ordered 0) = Some sys'
           \<and> lastDoc (state_of sys') = None
           \<and> products (state_of sys') = map (normalizeDoc now) ordered
           \<and> map pid (products (state_of sys')) = map doc_id ordered
           \<and> distinct (map pid (products (state_of sys')))
           \<and> sorted_wrt (\<lambda>a b. createdAt b \<le> createdAt a) (products (state_of sys'))"
proof -
  from load_all_pages [OF assms(1)] obtain sys' where
    s': "load_all now ordered (paged now ordered 0) = Some sys'"
      "products (state_of sys') = map (normalizeDoc now) ordered"
      "lastDoc (state_of sys') = None"
    by blast
  have "map pid (products (state_of sys')) = map doc_id ordered"
    by (simp add: s'(2) normalizeDoc_def)
  moreover from this assms(1) have "distinct (map pid (products (state_of sys')))" by simp
  moreover have "sorted_wrt (\<lambda>a b. createdAt b \<le> createdAt a) (products (state_of sys'))"
    using newest_first_products [OF assms(2)] by (simp add: s'(2))
  ultimately show ?thesis using s' by blast
qed

theorem load_all_complete_witness:
  "\<exists>sys'. load_all 0 twelve (paged 0 twelve 0) = Some sys'
      \<and> lastDoc (state_of sys') = None
      \<and> map pid (products (state_of sys'))
          = [''p12'', ''p11'', ''p10'', ''p09'', ''p08'', ''p07'', ''p06'', ''p05'', ''p04'',
             ''p03'', ''p02'', ''p01'']
      \<and> map createdAt (products (state_of sys')) = [12, 11, 10, 9, 8, 7, 6, 5, 4, 3, 2, 1]"
proof -
  have "distinct (map doc_id twelve)" and "newest_first twelve"
    by (simp_all add: twelve_def mk_doc_def newest_first_def)
  from load_all_complete [OF this, of 0] obtain sys' where
    "load_all 0 twelve (paged 0 twelve 0) = Some sys'" "lastDoc (state_of sys') = None"
    "products (state_of sys') = map (normalizeDoc 0) twelve"
    by blast
  then show ?thesis by (simp add: twelve_def mk_doc_def normalizeDoc_def del: paged.simps)
qed

text \<open>
  The claim C6 asks for ascending id among products of equal \<^verbatim>\<open>createdAt\<close>. Two products
  of the same instant that the store lists as b, a are accumulated as b, a.
\<close>

theorem ties_in_store_order:
  "distinct (map doc_id ties) \<and> newest_first ties
   \<and> map_option products (map_option state_of (load_all 0 ties (paged 0 ties 0)))
       = Some [normalizeDoc 0 (mk_doc ''b'' 1), normalizeDoc 0 (mk_doc ''a'' 1)]
   \<and> \<not> sorted_wrt spec_order [normalizeDoc 0 (mk_doc ''b'' 1), normalizeDoc 0 (mk_doc ''a'' 1)]"
proof -
  have d: "distinct (map doc_id ties)" and n: "newest_first ties"
    by (simp_all add: ties_def mk_doc_def newest_first_def)
  from load_all_pages [OF d, of 0] obtain sys' where
    "load_all 0 ties (paged 0 ties 0) = Some sys'"
    "products (state_of sys') = map (normalizeDoc 0) ties"
    by blast
  then have "map_option products (map_option state_of (load_all 0 ties (paged 0 ties 0)))
       = Some [normalizeDoc 0 (mk_doc ''b'' 1), normalizeDoc 0 (mk_doc ''a'' 1)]"
    by (simp add: ties_def del: paged.simps)
  moreover have
    "\<not> sorted_wrt spec_order [normalizeDoc 0 (mk_doc ''b'' 1), normalizeDoc 0 (mk_doc ''a'' 1)]"
    by (simp add: spec_order_def normalizeDoc_def mk_doc_def)
  ultimately show ?thesis using d n by simp
qed

end
